theory Spec2Isabelle
  imports Complex_Main "HOL-Library.Multiset" "HOL-Library.AList"
begin

section \<open>The BibTeX parser and renderer of the homepage\<close>

text \<open>
  The repository holds three versions of the pair \<^verbatim>\<open>parseBibtex\<close> / \<^verbatim>\<open>renderHTML\<close>:
  \<^item> \<open>v1\<close>: \<^verbatim>\<open>src/bibliography.js\<close> (line-based parser, no year filter, no sorting,
    the fragment wrapped in an html document);
  \<^item> \<open>v2\<close>: \<^verbatim>\<open>src/unnamed/part_000\<close>, lines 138-203 (line-based parser with a year
    filter \<^verbatim>\<open>>\<close>, in-place sort, DOI link);
  \<^item> \<open>v3\<close>: \<^verbatim>\<open>src/unnamed/part_000\<close>, lines 222-273 (parser splitting at \<^verbatim>\<open>@\<close>, year
    filter \<^verbatim>\<open>>=\<close>, in-place sort, defaults for missing fields).
  Each is embedded below under the source's name with the version as a suffix.
\<close>

subsection \<open>JavaScript strings\<close>

text \<open>
  A JavaScript string is a sequence of code units. It is modelled as a \<^typ>\<open>string\<close>, each
  \<^typ>\<open>char\<close> standing for the code unit of the same number, so the model covers the texts
  whose code units are below 256 (ASCII and the Latin-1 supplement).
\<close>

definition nl :: char where
  "nl = CHR 0x0A"

definition dq :: char where
  "dq = CHR 0x22"

text \<open>
  \<^verbatim>\<open>String.prototype.trim\<close> removes white space and line terminators at both ends. Below
  256 these are TAB, LF, VT, FF, CR, SP and NBSP.
\<close>

definition isWhiteSpace :: "char \<Rightarrow> bool" where
  "isWhiteSpace c =
     (c = CHR 0x09 \<or> c = CHR 0x0A \<or> c = CHR 0x0B \<or> c = CHR 0x0C \<or> c = CHR 0x0D
      \<or> c = CHR 0x20 \<or> c = CHR 0xA0)"

definition trim :: "string \<Rightarrow> string" where
  "trim s = rev (dropWhile isWhiteSpace (rev (dropWhile isWhiteSpace s)))"

text \<open>
  \<^verbatim>\<open>s.split(sep)\<close> for a separator of one code unit: the pieces between the occurrences of
  the separator, never an empty array.
\<close>

fun js_split :: "char \<Rightarrow> string \<Rightarrow> string list" where
  "js_split sep [] = [[]]"
| "js_split sep (c # cs) =
     (let ps = js_split sep cs
      in if c = sep then [] # ps else (c # hd ps) # tl ps)"

text \<open>\<^verbatim>\<open>s.includes(c)\<close> and \<^verbatim>\<open>s.startsWith(c)\<close> for one code unit.\<close>

definition str_includes :: "string \<Rightarrow> char \<Rightarrow> bool" where
  "str_includes s c = (c \<in> set s)"

definition startsWith :: "string \<Rightarrow> char \<Rightarrow> bool" where
  "startsWith s c = (case s of [] \<Rightarrow> False | d # _ \<Rightarrow> d = c)"

text \<open>
  \<^verbatim>\<open>String.prototype.toLowerCase\<close> on code units below 256: the letters A-Z and the
  Latin-1 capitals (0xC0-0xDE without the multiplication sign 0xD7) move up by 32.
\<close>

definition code :: "char \<Rightarrow> nat" where
  "code c = of_char c"

definition toLowerChar :: "char \<Rightarrow> char" where
  "toLowerChar c =
     (let n = code c
      in if (65 \<le> n \<and> n \<le> 90) \<or> (192 \<le> n \<and> n \<le> 222 \<and> n \<noteq> 215)
         then char_of (n + 32) else c)"

definition toLowerCase :: "string \<Rightarrow> string" where
  "toLowerCase s = map toLowerChar s"

text \<open>
  \<^verbatim>\<open>s.replace(/ and /g, ', ')\<close> and, with \<open>ci\<close>, \<^verbatim>\<open>s.replace(/ and /gi, ', ')\<close>: the matches
  are taken from the left and do not overlap.
\<close>

definition matches_and :: "bool \<Rightarrow> string \<Rightarrow> bool" where
  "matches_and ci s =
     (case s of
        c1 # c2 # c3 # c4 # c5 # _ \<Rightarrow>
          c1 = CHR '' '' \<and> c5 = CHR '' '' \<and>
          (if ci then (c2 = CHR ''a'' \<or> c2 = CHR ''A'') \<and> (c3 = CHR ''n'' \<or> c3 = CHR ''N'')
                      \<and> (c4 = CHR ''d'' \<or> c4 = CHR ''D'')
           else c2 = CHR ''a'' \<and> c3 = CHR ''n'' \<and> c4 = CHR ''d'')
      | _ \<Rightarrow> False)"

fun replace_and :: "bool \<Rightarrow> string \<Rightarrow> string" where
  "replace_and ci [] = []"
| "replace_and ci (c # cs) =
     (if matches_and ci (c # cs) then '', '' @ replace_and ci (drop 4 cs)
      else c # replace_and ci cs)"

subsection \<open>JavaScript numbers\<close>

text \<open>
  A number is a double: a rational that a double holds, one of the two infinities, or NaN.
  (The two zeros are one value here: the code never divides by a year or prints a number,
  and comparisons do not tell them apart.)
\<close>

datatype jsnum = Num rat | PosInf | NegInf | NaN

fun num_neg :: "jsnum \<Rightarrow> jsnum" where
  "num_neg (Num q) = Num (- q)"
| "num_neg PosInf = NegInf"
| "num_neg NegInf = PosInf"
| "num_neg NaN = NaN"

text \<open>
  The double nearest to the fraction \<open>a / b\<close> (for \<open>0 \<le> a\<close> and \<open>0 < b\<close>), ties going to
  the even significand: \<open>floorLog2 a b\<close> is the binary exponent of the fraction, \<open>p\<close> the
  exponent of the last place of its 53-bit significand (not below that of the subnormal
  doubles), and a result of \<open>2\<^sup>1\<^sup>0\<^sup>2\<^sup>4\<close> or more is Infinity.
\<close>

function bitLength :: "int \<Rightarrow> int" where
  "bitLength a = (if a \<le> 0 then 0 else 1 + bitLength (a div 2))"
  by pat_completeness auto
termination
  by (relation "measure nat") auto

declare bitLength.simps [simp del]

definition floorLog2 :: "int \<Rightarrow> int \<Rightarrow> int" where
  "floorLog2 a b =
     (let d = bitLength a - bitLength b
      in if (if 0 \<le> d then b * 2 ^ nat d \<le> a else b \<le> a * 2 ^ nat (- d)) then d else d - 1)"

definition roundHalfEven :: "int \<Rightarrow> int \<Rightarrow> int" where
  "roundHalfEven a b =
     (let f = a div b; r = a mod b
      in if 2 * r < b then f else if b < 2 * r then f + 1 else if even f then f else f + 1)"

definition roundDouble :: "int \<Rightarrow> int \<Rightarrow> jsnum" where
  "roundDouble a b =
     (if a = 0 then Num 0
      else let p = max (floorLog2 a b - 52) (- 1074)
           in if 0 \<le> p
              then (let n = roundHalfEven a (b * 2 ^ nat p)
                    in if 2 ^ 1024 \<le> n * 2 ^ nat p then PosInf else Num (of_int (n * 2 ^ nat p)))
              else Num (of_int (roundHalfEven (a * 2 ^ nat (- p)) b) / of_int (2 ^ nat (- p))))"

text \<open>Digits and their values.\<close>

definition isDigit :: "char \<Rightarrow> bool" where
  "isDigit c = (48 \<le> code c \<and> code c \<le> 57)"

definition digitVal :: "char \<Rightarrow> nat" where
  "digitVal c = code c - 48"

definition isHexDigit :: "char \<Rightarrow> bool" where
  "isHexDigit c =
     (isDigit c \<or> (97 \<le> code c \<and> code c \<le> 102) \<or> (65 \<le> code c \<and> code c \<le> 70))"

definition hexVal :: "char \<Rightarrow> nat" where
  "hexVal c =
     (if isDigit c then code c - 48
      else if 97 \<le> code c \<and> code c \<le> 102 then code c - 87
      else code c - 55)"

definition digitsValue :: "int \<Rightarrow> (char \<Rightarrow> nat) \<Rightarrow> string \<Rightarrow> int" where
  "digitsValue radix val ds = foldl (\<lambda>a c. radix * a + int (val c)) 0 ds"

text \<open>
  \<^verbatim>\<open>parseInt(s)\<close> with no radix: leading white space is skipped, a sign is read, a prefix
  \<^verbatim>\<open>0x\<close> selects radix 16, and the longest prefix of digits is the value, as a double; no
  digit gives NaN.
\<close>

definition parseInt :: "string \<Rightarrow> jsnum" where
  "parseInt s =
     (let s0 = dropWhile isWhiteSpace s;
          neg = startsWith s0 (CHR ''-'');
          s1 = (if startsWith s0 (CHR ''-'') \<or> startsWith s0 (CHR ''+'') then tl s0 else s0);
          hex = (case s1 of
                   c # d # _ \<Rightarrow> c = CHR ''0'' \<and> (d = CHR ''x'' \<or> d = CHR ''X'')
                 | _ \<Rightarrow> False);
          ds = (if hex then takeWhile isHexDigit (drop 2 s1) else takeWhile isDigit s1);
          v = (if hex then digitsValue 16 hexVal ds else digitsValue 10 digitVal ds)
      in if ds = [] then NaN
         else if neg then num_neg (roundDouble v 1) else roundDouble v 1)"

text \<open>
  The conversion of a string to a number, as \<^verbatim>\<open>-\<close> and \<^verbatim>\<open>>\<close> apply it to a year string.
  White space is trimmed and the empty string is 0. What is left must be a numeric literal
  as a whole: \<^verbatim>\<open>0x\<close>, \<^verbatim>\<open>0o\<close> or \<^verbatim>\<open>0b\<close> and digits of that radix, with no sign; or, after an
  optional sign, \<^verbatim>\<open>Infinity\<close> or a decimal literal (digits, a point and digits where one of
  the two runs of digits may be missing, and an exponent \<^verbatim>\<open>e\<close> with an optional sign and
  digits). Anything else is NaN. \<open>decimalLiteral\<close> gives the value of a decimal literal as a
  fraction, and the number is the double nearest to it. (For a literal of more than 20
  significant digits the language also lets an engine round the literal cut to 20 digits;
  the engines in use round the exact value, as is done here and in \<open>parseInt\<close>.)
\<close>

definition decimalLiteral :: "string \<Rightarrow> (int \<times> int) option" where
  "decimalLiteral u =
     (let ip = takeWhile isDigit u;
          r1 = dropWhile isDigit u;
          hasDot = startsWith r1 (CHR ''.'');
          fp = (if hasDot then takeWhile isDigit (tl r1) else []);
          r2 = (if hasDot then dropWhile isDigit (tl r1) else r1);
          hasExp = (startsWith r2 (CHR ''e'') \<or> startsWith r2 (CHR ''E''));
          r3 = (if hasExp then tl r2 else r2);
          eneg = (hasExp \<and> startsWith r3 (CHR ''-''));
          r4 = (if hasExp \<and> (startsWith r3 (CHR ''-'') \<or> startsWith r3 (CHR ''+''))
                then tl r3 else r3);
          ed = (if hasExp then takeWhile isDigit r4 else []);
          r5 = (if hasExp then dropWhile isDigit r4 else r4);
          m = digitsValue 10 digitVal (ip @ fp);
          ex = (if eneg then - digitsValue 10 digitVal ed else digitsValue 10 digitVal ed)
               - int (length fp)
      in if (ip = [] \<and> fp = []) \<or> (hasExp \<and> ed = []) \<or> r5 \<noteq> [] then None
         else Some (if 0 \<le> ex then (m * 10 ^ nat ex, 1) else (m, 10 ^ nat (- ex))))"

definition nonDecimalLiteral :: "string \<Rightarrow> int option" where
  "nonDecimalLiteral t =
     (case t of
        c # d # ds \<Rightarrow>
          if c = CHR ''0'' \<and> ds \<noteq> [] then
            (if (d = CHR ''x'' \<or> d = CHR ''X'') \<and> list_all isHexDigit ds
               then Some (digitsValue 16 hexVal ds)
             else if (d = CHR ''o'' \<or> d = CHR ''O'')
                     \<and> list_all (\<lambda>c. 48 \<le> code c \<and> code c \<le> 55) ds
               then Some (digitsValue 8 digitVal ds)
             else if (d = CHR ''b'' \<or> d = CHR ''B'')
                     \<and> list_all (\<lambda>c. c = CHR ''0'' \<or> c = CHR ''1'') ds
               then Some (digitsValue 2 digitVal ds)
             else None)
          else None
      | _ \<Rightarrow> None)"

definition toNumber :: "string \<Rightarrow> jsnum" where
  "toNumber s =
     (let t = trim s;
          neg = startsWith t (CHR ''-'');
          u = (if startsWith t (CHR ''-'') \<or> startsWith t (CHR ''+'') then tl t else t)
      in if t = [] then Num 0
         else (case nonDecimalLiteral t of
                 Some n \<Rightarrow> roundDouble n 1
               | None \<Rightarrow>
                   if u = ''Infinity'' then (if neg then NegInf else PosInf)
                   else (case decimalLiteral u of
                           None \<Rightarrow> NaN
                         | Some ab \<Rightarrow>
                             if neg then num_neg (roundDouble (fst ab) (snd ab))
                             else roundDouble (fst ab) (snd ab))))"

text \<open>
  The difference of two numbers. The difference of two infinities of one sign is NaN.
  (JavaScript rounds the difference of two doubles to a double; the rounded difference is
  positive, zero or negative as the exact one is, and the sort reads no more of it.)
\<close>

fun num_sub :: "jsnum \<Rightarrow> jsnum \<Rightarrow> jsnum" where
  "num_sub NaN _ = NaN"
| "num_sub _ NaN = NaN"
| "num_sub (Num a) (Num b) = Num (a - b)"
| "num_sub PosInf PosInf = NaN"
| "num_sub NegInf NegInf = NaN"
| "num_sub PosInf _ = PosInf"
| "num_sub NegInf _ = NegInf"
| "num_sub (Num a) PosInf = NegInf"
| "num_sub (Num a) NegInf = PosInf"

text \<open>The comparisons of a number with an integer, and with zero.\<close>

fun num_gt :: "jsnum \<Rightarrow> int \<Rightarrow> bool" where
  "num_gt (Num a) b = (a > of_int b)"
| "num_gt PosInf b = True"
| "num_gt NegInf b = False"
| "num_gt NaN b = False"

fun num_ge :: "jsnum \<Rightarrow> int \<Rightarrow> bool" where
  "num_ge (Num a) b = (a \<ge> of_int b)"
| "num_ge PosInf b = True"
| "num_ge NegInf b = False"
| "num_ge NaN b = False"

fun is_pos :: "jsnum \<Rightarrow> bool" where
  "is_pos (Num a) = (a > 0)"
| "is_pos PosInf = True"
| "is_pos NegInf = False"
| "is_pos NaN = False"

subsection \<open>Entry objects\<close>

text \<open>
  An entry is a plain object whose properties are strings: an association list from
  property names to values. Reading a property that is absent gives \<^verbatim>\<open>undefined\<close>
  (\<open>None\<close>). The assignment \<^verbatim>\<open>entry[name] = value\<close> sets or replaces the property, except
  for the name \<^verbatim>\<open>__proto__\<close>, whose setter ignores a string.
\<close>

type_synonym entry = "(string \<times> string) list"

definition getProp :: "entry \<Rightarrow> string \<Rightarrow> string option" where
  "getProp e name = map_of e name"

definition assign :: "entry \<Rightarrow> string \<Rightarrow> string \<Rightarrow> entry" where
  "assign e name v = (if name = ''__proto__'' then e else AList.update name v e)"

text \<open>A value is truthy when it is a string that is not empty.\<close>

fun truthy :: "string option \<Rightarrow> bool" where
  "truthy None = False"
| "truthy (Some s) = (s \<noteq> [])"

text \<open>\<^verbatim>\<open>a || b\<close> on two property reads.\<close>

definition or_else :: "string option \<Rightarrow> string option \<Rightarrow> string option" where
  "or_else a b = (if truthy a then a else b)"

text \<open>A value inside a template literal: \<^verbatim>\<open>undefined\<close> prints as the word.\<close>

fun interp :: "string option \<Rightarrow> string" where
  "interp None = ''undefined''"
| "interp (Some s) = s"

text \<open>\<^verbatim>\<open>x || ''\<close> inside a template literal.\<close>

fun or_empty :: "string option \<Rightarrow> string" where
  "or_empty None = []"
| "or_empty (Some s) = s"

text \<open>The exceptions of the source: a method called on \<^verbatim>\<open>undefined\<close>.\<close>

datatype js_error = TypeError

subsection \<open>\<^verbatim>\<open>Array.prototype.sort\<close>\<close>

text \<open>
  \<^verbatim>\<open>entries.sort(cmp)\<close> is a stable sort: \<open>x\<close> moves behind \<open>y\<close> only when \<open>cmp x y\<close> is
  positive, and a result NaN counts as zero. Where the comparator orders the elements
  consistently, which for the comparators of this code is where no year converts to NaN,
  the language fixes the result and \<open>js_sort\<close> is that result. Where a year converts to
  NaN the language leaves the order to the engine: \<open>js_sort\<close> is then one of the possible
  orders, and the properties below state of it only what holds of every order, namely
  that the array keeps its elements and that the blocks are rendered in the order of the
  array.
\<close>

fun insert_by :: "('a \<Rightarrow> 'a \<Rightarrow> jsnum) \<Rightarrow> 'a \<Rightarrow> 'a list \<Rightarrow> 'a list" where
  "insert_by cmp x [] = [x]"
| "insert_by cmp x (y # ys) =
     (if is_pos (cmp x y) then y # insert_by cmp x ys else x # y # ys)"

definition js_sort :: "('a \<Rightarrow> 'a \<Rightarrow> jsnum) \<Rightarrow> 'a list \<Rightarrow> 'a list" where
  "js_sort cmp xs = foldr (insert_by cmp) xs []"

subsection \<open>Version 3: the parser splitting at \<^verbatim>\<open>@\<close>\<close>

text \<open>
  The value of a field: \<^verbatim>\<open>v.replace(/[{}"]/g, '').replace(/,$/, '').trim()\<close>. Without the
  flag \<^verbatim>\<open>m\<close> the anchor \<^verbatim>\<open>$\<close> is the end of the string.
\<close>

definition dropTrailingComma :: "string \<Rightarrow> string" where
  "dropTrailingComma s = (if s \<noteq> [] \<and> last s = CHR '','' then butlast s else s)"

definition fieldValue_v3 :: "string \<Rightarrow> string" where
  "fieldValue_v3 v =
     trim (dropTrailingComma
       (filter (\<lambda>c. c \<noteq> CHR ''{'' \<and> c \<noteq> CHR ''}'' \<and> c \<noteq> dq) v))"

text \<open>
  One line of the body (the callback of \<^verbatim>\<open>fields.forEach\<close>). A line that includes
  \<^verbatim>\<open>=\<close> splits into at least two pieces, so the last case is never taken.
\<close>

definition fieldLine_v3 :: "entry \<Rightarrow> string \<Rightarrow> entry" where
  "fieldLine_v3 e line0 =
     (let line = trim line0
      in if str_includes line (CHR ''='')
         then (case js_split (CHR ''='') line of
                 k # v # _ \<Rightarrow> assign e (toLowerCase (trim k)) (fieldValue_v3 v)
               | _ \<Rightarrow> e)
         else e)"

text \<open>
  The record of the header line: \<^verbatim>\<open>{type: type.trim(), key: key ? key.replace(',', '').trim() : ''}\<close>.
\<close>

definition header_v3 :: "string \<Rightarrow> entry" where
  "header_v3 typeAndKey =
     (let ps = js_split (CHR ''{'') typeAndKey
      in [(''type'', trim (hd ps)),
          (''key'', (case tl ps of
                       [] \<Rightarrow> []
                     | k # _ \<Rightarrow> if k = [] then [] else trim (remove1 (CHR '','') k)))])"

text \<open>One segment (the callback of \<^verbatim>\<open>rawEntries.forEach\<close>, before the year test).\<close>

definition parseEntry_v3 :: "string \<Rightarrow> entry" where
  "parseEntry_v3 raw =
     (let ls = js_split nl raw
      in foldl fieldLine_v3 (header_v3 (hd ls)) (tl ls))"

text \<open>
  The year test \<^verbatim>\<open>entry.year && parseInt(entry.year) >= limYear\<close> with
  \<^verbatim>\<open>limYear = currentYear - 3\<close>. The year of the system clock, read by
  \<^verbatim>\<open>new Date().getFullYear()\<close>, is the parameter \<open>currentYear\<close>.
\<close>

definition recent_v3 :: "int \<Rightarrow> entry \<Rightarrow> bool" where
  "recent_v3 currentYear e =
     (case getProp e ''year'' of
        None \<Rightarrow> False
      | Some y \<Rightarrow> y \<noteq> [] \<and> num_ge (parseInt y) (currentYear - 3))"

definition parseBibtex_v3 :: "int \<Rightarrow> string \<Rightarrow> entry list" where
  "parseBibtex_v3 currentYear bibtex =
     filter (recent_v3 currentYear) (map parseEntry_v3 (tl (js_split (CHR ''@'') bibtex)))"

text \<open>The renderer. The comparator is \<^verbatim>\<open>(a, b) => (b.year || 0) - (a.year || 0)\<close>.\<close>

definition yearOrZero :: "entry \<Rightarrow> jsnum" where
  "yearOrZero e = (if truthy (getProp e ''year'') then toNumber (or_empty (getProp e ''year'')) else Num 0)"

definition cmp_v3 :: "entry \<Rightarrow> entry \<Rightarrow> jsnum" where
  "cmp_v3 a b = num_sub (yearOrZero b) (yearOrZero a)"

definition source_of :: "entry \<Rightarrow> string option" where
  "source_of e =
     or_else (getProp e ''journal'') (or_else (getProp e ''booktitle'')
       (or_else (getProp e ''publisher'') (getProp e ''howpublished'')))"

definition block_v3 :: "entry \<Rightarrow> string" where
  "block_v3 e =
     (let author = (if truthy (getProp e ''author'')
                    then replace_and True (or_empty (getProp e ''author''))
                    else ''Unknown Author'');
          title = (if truthy (getProp e ''title'')
                   then ''<i>'' @ [dq] @ or_empty (getProp e ''title'') @ [dq] @ ''</i>''
                   else ''Untitled'');
          source = (if truthy (source_of e) then or_empty (source_of e) else []);
          doiLink = (if truthy (getProp e ''doi'')
                     then ''<a href='' @ [dq] @ ''https://doi.org/'' @ or_empty (getProp e ''doi'')
                          @ [dq] @ '' target='' @ [dq] @ ''_blank'' @ [dq] @ ''>''
                          @ or_empty (getProp e ''doi'') @ ''</a>''
                     else [])
      in [nl] @ ''      <div class='' @ [dq] @ ''entry mb-2'' @ [dq] @ ''>'' @ [nl]
         @ ''        <p>'' @ [nl]
         @ ''          '' @ author @ '', '' @ title @ ''. '' @ source @ '', ''
         @ (if truthy (getProp e ''year'') then or_empty (getProp e ''year'') else []) @ ''. '' @ doiLink @ [nl]
         @ ''        </p>'' @ [nl]
         @ ''      </div>'' @ [nl]
         @ ''    '')"

text \<open>
  \<^verbatim>\<open>renderHTML\<close> sorts the array it is given in place and returns the fragment: the model
  returns the fragment together with the array as the caller finds it afterwards.
\<close>

definition renderHTML_v3 :: "entry list \<Rightarrow> string \<times> entry list" where
  "renderHTML_v3 entries =
     (let sorted = js_sort cmp_v3 entries
      in (concat (map block_v3 sorted), sorted))"

subsection \<open>Versions 1 and 2: the line-based parsers\<close>

text \<open>The value of a field: \<^verbatim>\<open>value.trim().replace(/[{},]/g, '')\<close>.\<close>

definition fieldValue_v1 :: "string \<Rightarrow> string" where
  "fieldValue_v1 v =
     filter (\<lambda>c. c \<noteq> CHR ''{'' \<and> c \<noteq> CHR ''}'' \<and> c \<noteq> CHR '','') (trim v)"

text \<open>
  The header line, with \<^verbatim>\<open>const [type, key] = line.substring(1).split('{')\<close>: when the line
  has no \<^verbatim>\<open>{\<close>, \<open>key\<close> is \<^verbatim>\<open>undefined\<close> and \<^verbatim>\<open>key.trim()\<close> throws. The same lines stand in
  both versions.
\<close>

definition header_v1 :: "string \<Rightarrow> js_error + entry" where
  "header_v1 line =
     (let ps = js_split (CHR ''{'') (drop 1 line)
      in case tl ps of
           [] \<Rightarrow> Inl TypeError
         | key # _ \<Rightarrow>
             Inr [(''type'', trim (hd ps)),
                  (''key'', filter (\<lambda>c. c \<noteq> CHR '','') (trim key))])"

text \<open>
  A field line: \<^verbatim>\<open>const [key, value] = line.split('='); currentEntry[key.trim()] = ...\<close>.
  A line that includes \<^verbatim>\<open>=\<close> splits into at least two pieces, so the last case is never
  taken.
\<close>

definition fieldLine_v1 :: "entry \<Rightarrow> string \<Rightarrow> entry" where
  "fieldLine_v1 e line =
     (case js_split (CHR ''='') line of
        k # v # _ \<Rightarrow> assign e (trim k) (fieldValue_v1 v)
      | _ \<Rightarrow> e)"

text \<open>\<^verbatim>\<open>forEach\<close> with a callback that may throw: the first exception ends the loop.\<close>

fun forEach :: "('s \<Rightarrow> 'a \<Rightarrow> js_error + 's) \<Rightarrow> 's \<Rightarrow> 'a list \<Rightarrow> js_error + 's" where
  "forEach f s [] = Inr s"
| "forEach f s (x # xs) = (case f s x of Inl err \<Rightarrow> Inl err | Inr s' \<Rightarrow> forEach f s' xs)"

text \<open>
  The state of the loop is the array \<open>entries\<close> and the object \<open>currentEntry\<close>;
  \<^verbatim>\<open>Object.keys(currentEntry).length !== 0\<close> says that the object has a property.
\<close>

definition step_v1 :: "entry list \<times> entry \<Rightarrow> string \<Rightarrow> js_error + (entry list \<times> entry)" where
  "step_v1 st line0 =
     (let line = trim line0; entries = fst st; currentEntry = snd st
      in if startsWith line (CHR ''@'')
         then (case header_v1 line of
                 Inl err \<Rightarrow> Inl err
               | Inr e \<Rightarrow>
                   Inr (if currentEntry \<noteq> [] then entries @ [currentEntry] else entries, e))
         else if str_includes line (CHR ''='')
         then Inr (entries, fieldLine_v1 currentEntry line)
         else Inr (entries, currentEntry))"

definition parseBibtex_v1 :: "string \<Rightarrow> js_error + entry list" where
  "parseBibtex_v1 bibtex =
     (case forEach step_v1 ([], []) (js_split nl bibtex) of
        Inl err \<Rightarrow> Inl err
      | Inr st \<Rightarrow> Inr (if snd st \<noteq> [] then fst st @ [snd st] else fst st))"

text \<open>
  Version 2 pushes the entry that a new header closes only when
  \<^verbatim>\<open>currentEntry.year > lim_year\<close>, with \<^verbatim>\<open>lim_year = currentYear - 3\<close>; the entry left
  at the end of the text is pushed without the test. (The assignment to the undeclared
  \<^verbatim>\<open>lim_year\<close> makes a global variable in a classic script, which is how the page loads
  the file.)
\<close>

definition yearNum_v2 :: "entry \<Rightarrow> jsnum" where
  "yearNum_v2 e = (case getProp e ''year'' of None \<Rightarrow> NaN | Some y \<Rightarrow> toNumber y)"

definition step_v2 ::
  "int \<Rightarrow> entry list \<times> entry \<Rightarrow> string \<Rightarrow> js_error + (entry list \<times> entry)" where
  "step_v2 currentYear st line0 =
     (let line = trim line0; entries = fst st; currentEntry = snd st
      in if startsWith line (CHR ''@'')
         then (case header_v1 line of
                 Inl err \<Rightarrow> Inl err
               | Inr e \<Rightarrow>
                   Inr (if currentEntry \<noteq> [] \<and> num_gt (yearNum_v2 currentEntry) (currentYear - 3)
                        then entries @ [currentEntry] else entries, e))
         else if str_includes line (CHR ''='')
         then Inr (entries, fieldLine_v1 currentEntry line)
         else Inr (entries, currentEntry))"

definition parseBibtex_v2 :: "int \<Rightarrow> string \<Rightarrow> js_error + entry list" where
  "parseBibtex_v2 currentYear bibtex =
     (case forEach (step_v2 currentYear) ([], []) (js_split nl bibtex) of
        Inl err \<Rightarrow> Inl err
      | Inr st \<Rightarrow> Inr (if snd st \<noteq> [] then fst st @ [snd st] else fst st))"

subsection \<open>Versions 1 and 2: the renderers\<close>

text \<open>
  Version 1 maps the entries in the order given (\<open>block_v1\<close> is the callback of
  \<^verbatim>\<open>entries.map\<close>) and returns the joined blocks inside the template of a document
  (\<open>wrap_v1\<close>). A field that is missing prints as \<^verbatim>\<open>undefined\<close>. The array is not
  changed.
\<close>

definition block_v1 :: "entry \<Rightarrow> string" where
  "block_v1 e =
     [nl] @ ''      <div class='' @ [dq] @ ''entry'' @ [dq] @ ''>'' @ [nl]
     @ ''        <p>'' @ [nl]
     @ ''        '' @ interp (getProp e ''author'') @ '','' @ [nl]
     @ ''        <i>'' @ [dq] @ interp (getProp e ''title'') @ [dq] @ ''</i>'' @ [nl]
     @ ''        '' @ interp (source_of e) @ '', '' @ interp (getProp e ''year'') @ [nl]
     @ ''        </p>'' @ [nl]
     @ ''      </div>'' @ [nl]
     @ ''    ''"

definition wrap_v1 :: "string \<Rightarrow> string" where
  "wrap_v1 html =
     [nl] @ ''    <html>'' @ [nl]
     @ ''      <head>'' @ [nl]
     @ ''        <title>BibTeX Entries</title>'' @ [nl]
     @ ''      </head>'' @ [nl]
     @ ''      <body>'' @ [nl]
     @ ''        '' @ html @ [nl]
     @ ''      </body>'' @ [nl]
     @ ''    </html>'' @ [nl]
     @ ''  ''"

definition renderHTML_v1 :: "entry list \<Rightarrow> string" where
  "renderHTML_v1 entries = wrap_v1 (concat (map block_v1 entries))"

text \<open>
  Version 2 sorts in place with \<^verbatim>\<open>(a, b) => b.year - a.year\<close>, then maps; the block calls
  \<^verbatim>\<open>entry.author.replace\<close>, which throws when the entry has no author
  (\<open>blockText_v2\<close> is the text of the block of an entry with the given author).
\<close>

definition cmp_v2 :: "entry \<Rightarrow> entry \<Rightarrow> jsnum" where
  "cmp_v2 a b = num_sub (yearNum_v2 b) (yearNum_v2 a)"

definition blockText_v2 :: "entry \<Rightarrow> string \<Rightarrow> string" where
  "blockText_v2 e author =
     (let doiLink = (if truthy (getProp e ''doi'')
                     then ''<a href='' @ [dq] @ ''https://doi.org/'' @ or_empty (getProp e ''doi'')
                          @ [dq] @ ''>'' @ or_empty (getProp e ''doi'') @ ''</a>''
                     else [])
      in [nl] @ ''      <div class='' @ [dq] @ ''entry'' @ [dq] @ ''>'' @ [nl]
         @ ''        <p>'' @ [nl]
         @ ''        '' @ replace_and False author @ '','' @ [nl]
         @ ''        <i>'' @ [dq] @ interp (getProp e ''title'') @ [dq] @ ''</i>'' @ [nl]
         @ ''        '' @ interp (source_of e) @ '', '' @ interp (getProp e ''year'') @ [nl]
         @ ''        '' @ doiLink @ [nl]
         @ ''        </p>'' @ [nl]
         @ ''      </div>'' @ [nl]
         @ ''    '')"

definition block_v2 :: "entry \<Rightarrow> js_error + string" where
  "block_v2 e =
     (case getProp e ''author'' of
        None \<Rightarrow> Inl TypeError
      | Some author \<Rightarrow> Inr (blockText_v2 e author))"

text \<open>\<^verbatim>\<open>map\<close> with a callback that may throw.\<close>

fun mapE :: "('a \<Rightarrow> js_error + 'b) \<Rightarrow> 'a list \<Rightarrow> js_error + 'b list" where
  "mapE f [] = Inr []"
| "mapE f (x # xs) =
     (case f x of
        Inl err \<Rightarrow> Inl err
      | Inr y \<Rightarrow> (case mapE f xs of Inl err \<Rightarrow> Inl err | Inr ys \<Rightarrow> Inr (y # ys)))"

definition renderHTML_v2 :: "entry list \<Rightarrow> (js_error + string) \<times> entry list" where
  "renderHTML_v2 entries =
     (let sorted = js_sort cmp_v2 entries
      in (case mapE block_v2 sorted of
            Inl err \<Rightarrow> Inl err
          | Inr blocks \<Rightarrow> Inr ([nl] @ ''        '' @ concat blocks @ [nl] @ ''  ''),
          sorted))"


section \<open>Notions of the statements\<close>

text \<open>
  The number written by a string of decimal digits, and a year of four decimal digits.
\<close>

definition decimalValue :: "string \<Rightarrow> nat" where
  "decimalValue ds = foldl (\<lambda>a c. 10 * a + digitVal c) 0 ds"

definition fourDigits :: "string \<Rightarrow> bool" where
  "fourDigits y = (length y = 4 \<and> list_all isDigit y)"

text \<open>
  The order of the numbers that are not NaN, and the order of two entries by their years:
  \<open>byYear a b\<close> says that the year of \<open>a\<close> is at least the year of \<open>b\<close>, with the number
  that the comparator of the version reads (in version 3 a missing or empty year is 0).
\<close>

fun num_le :: "jsnum \<Rightarrow> jsnum \<Rightarrow> bool" where
  "num_le NaN _ = False"
| "num_le _ NaN = False"
| "num_le NegInf _ = True"
| "num_le _ PosInf = True"
| "num_le (Num a) (Num b) = (a \<le> b)"
| "num_le PosInf _ = False"
| "num_le (Num a) NegInf = False"

definition byYear_v3 :: "entry \<Rightarrow> entry \<Rightarrow> bool" where
  "byYear_v3 a b = num_le (yearOrZero b) (yearOrZero a)"

definition byYear_v2 :: "entry \<Rightarrow> entry \<Rightarrow> bool" where
  "byYear_v2 a b = num_le (yearNum_v2 b) (yearNum_v2 a)"





text \<open>
  The example entry of the specification, once with a field on each line and once as the
  single line the specification prints.
\<close>

definition example_lines :: string where
  "example_lines =
     ''@article{doe2023,'' @ [nl]
     @ ''  author = {Doe, J. and Roe, K.},'' @ [nl]
     @ ''  title = {A Study},'' @ [nl]
     @ ''  year = {2023},'' @ [nl]
     @ ''  journal = {Journal X},'' @ [nl]
     @ ''  doi = {10.1/xyz}'' @ [nl]
     @ ''}''"

definition example_inline :: string where
  "example_inline =
     ''@article{doe2023, author = {Doe, J. and Roe, K.}, title = {A Study}, year = {2023}, journal = {Journal X}, doi = {10.1/xyz}}''"

text \<open>Two entries of the years 2022 and 2024, and a text of two entries of 2021 and 2024.\<close>

definition entry2022 :: entry where
  "entry2022 =
     [(''type'', ''article''), (''key'', ''a''), (''author'', ''A''), (''title'', ''Old''),
      (''year'', ''2022'')]"

definition entry2024 :: entry where
  "entry2024 =
     [(''type'', ''article''), (''key'', ''b''), (''author'', ''B''), (''title'', ''New''),
      (''year'', ''2024'')]"

definition entry2021 :: entry where
  "entry2021 = [(''type'', ''article''), (''key'', ''a''), (''year'', ''2021'')]"

definition two_entries_text :: string where
  "two_entries_text =
     ''@article{a,'' @ [nl] @ ''year = 2021'' @ [nl] @ ''@article{b,'' @ [nl] @ ''year = 2024''"

text \<open>
  A text whose entry has a field written \<^verbatim>\<open>Title\<close>, a text whose entry has no author, and
  a text whose first header has no \<^verbatim>\<open>{\<close>.
\<close>

definition capital_field_text :: string where
  "capital_field_text = ''@article{doe2023,'' @ [nl] @ ''  Title = {A Study},'' @ [nl] @ ''}''"

definition no_author_text :: string where
  "no_author_text = ''@misc{k,'' @ [nl] @ ''  title = {T}''"

definition no_brace_text :: string where
  "no_brace_text =
     ''@misc'' @ [nl] @ ''  year = 2024'' @ [nl] @ ''@article{k,'' @ [nl] @ ''  year = 2024''"


section \<open>Auxiliary lemmas\<close>

subsection \<open>Splitting\<close>

lemma js_split_not_Nil: "js_split sep s \<noteq> []"
  by (induction s) (auto simp: Let_def)

lemma js_split_hd: "hd (js_split sep s) = takeWhile (\<lambda>c. c \<noteq> sep) s"
  by (induction s) (auto simp: Let_def)



lemma js_split_no_sep: "sep \<notin> set s \<Longrightarrow> js_split sep s = [s]"
  by (induction s) (auto simp: Let_def)

lemma js_split_tl_not_Nil: "sep \<in> set s \<Longrightarrow> tl (js_split sep s) \<noteq> []"
  by (induction s) (auto simp: Let_def js_split_not_Nil)

lemma js_split_two: "sep \<in> set s \<Longrightarrow> \<exists>k v rest. js_split sep s = k # v # rest"
  using js_split_tl_not_Nil [of sep s] js_split_not_Nil [of sep s]
  by (cases "js_split sep s"; cases "tl (js_split sep s)") auto

subsection \<open>The sort\<close>

lemma mset_insert_by: "mset (insert_by cmp x ys) = add_mset x (mset ys)"
  by (induction ys) auto

lemma set_insert_by: "set (insert_by cmp x ys) = insert x (set ys)"
  by (induction ys) auto

lemma js_sort_Cons: "js_sort cmp (x # xs) = insert_by cmp x (js_sort cmp xs)"
  by (simp add: js_sort_def)

lemma mset_js_sort: "mset (js_sort cmp xs) = mset xs"
  by (induction xs) (auto simp: js_sort_Cons mset_insert_by js_sort_def)

lemma set_js_sort: "set (js_sort cmp xs) = set xs"
  using mset_js_sort [of cmp xs] by (metis set_mset_mset)

lemma length_js_sort: "length (js_sort cmp xs) = length xs"
  using mset_js_sort [of cmp xs] by (metis size_mset)

text \<open>
  In the lemmas below \<open>R x y\<close> says that \<open>x\<close> may stand before \<open>y\<close>; the comparator is
  positive exactly when it may not.
\<close>

lemma sorted_insert_by:
  assumes pos: "\<And>y. y \<in> set ys \<Longrightarrow> is_pos (cmp x y) = (\<not> R x y)"
    and total: "\<And>y. y \<in> set ys \<Longrightarrow> R x y \<or> R y x"
    and trans: "\<And>y z. y \<in> set ys \<Longrightarrow> z \<in> set ys \<Longrightarrow> R x y \<Longrightarrow> R y z \<Longrightarrow> R x z"
    and sorted: "sorted_wrt R ys"
  shows "sorted_wrt R (insert_by cmp x ys)"
  using assms
proof (induction ys)
  case Nil
  then show ?case by simp
next
  case (Cons y ys)
  have tail: "sorted_wrt R ys" and first: "\<forall>z \<in> set ys. R y z"
    using Cons.prems(4) by simp_all
  show ?case
  proof (cases "is_pos (cmp x y)")
    case True
    have "\<not> R x y" using True Cons.prems(1) [of y] by simp
    then have yx: "R y x" using Cons.prems(2) [of y] by simp
    have "sorted_wrt R (insert_by cmp x ys)"
    proof (rule Cons.IH)
      show "is_pos (cmp x z) = (\<not> R x z)" if "z \<in> set ys" for z
        using that Cons.prems(1) [of z] by simp
      show "R x z \<or> R z x" if "z \<in> set ys" for z
        using that Cons.prems(2) [of z] by simp
      show "R x w" if "z \<in> set ys" "w \<in> set ys" "R x z" "R z w" for z w
        using that Cons.prems(3) [of z w] by simp
      show "sorted_wrt R ys" by (rule tail)
    qed
    then show ?thesis
      using True yx first by (simp add: set_insert_by)
  next
    case False
    then have xy: "R x y" using Cons.prems(1) [of y] by simp
    have "R x z" if "z \<in> set ys" for z
      using that xy first Cons.prems(3) [of y z] by simp
    then show ?thesis
      using False xy first tail by simp
  qed
qed

lemma filter_insert_by:
  assumes "\<And>y. y \<in> set ys \<Longrightarrow> is_pos (cmp x y) = (\<not> R x y)"
    and "\<And>y. y \<in> set ys \<Longrightarrow> P x \<Longrightarrow> P y \<Longrightarrow> R x y"
  shows "filter P (insert_by cmp x ys) = (if P x then x # filter P ys else filter P ys)"
  using assms
  by (induction ys) auto

lemma insert_by_sorted:
  assumes "\<And>y. y \<in> set ys \<Longrightarrow> is_pos (cmp x y) = (\<not> R x y)"
    and "sorted_wrt R (x # ys)"
  shows "insert_by cmp x ys = x # ys"
  using assms by (cases ys) auto

lemma js_sort_sorted:
  assumes pos: "\<And>x y. x \<in> set xs \<Longrightarrow> y \<in> set xs \<Longrightarrow> is_pos (cmp x y) = (\<not> R x y)"
    and total: "\<And>x y. x \<in> set xs \<Longrightarrow> y \<in> set xs \<Longrightarrow> R x y \<or> R y x"
    and trans: "\<And>x y z. x \<in> set xs \<Longrightarrow> y \<in> set xs \<Longrightarrow> z \<in> set xs \<Longrightarrow>
                  R x y \<Longrightarrow> R y z \<Longrightarrow> R x z"
  shows "sorted_wrt R (js_sort cmp xs)"
  using assms
proof (induction xs)
  case Nil
  show ?case by (simp add: js_sort_def)
next
  case (Cons x xs)
  have ih: "sorted_wrt R (js_sort cmp xs)"
  proof (rule Cons.IH)
    show "is_pos (cmp a b) = (\<not> R a b)" if "a \<in> set xs" "b \<in> set xs" for a b
      by (rule Cons.prems(1)) (simp_all add: that)
    show "R a b \<or> R b a" if "a \<in> set xs" "b \<in> set xs" for a b
      by (rule Cons.prems(2)) (simp_all add: that)
    show "R a c" if "a \<in> set xs" "b \<in> set xs" "c \<in> set xs" "R a b" "R b c" for a b c
      by (rule Cons.prems(3) [of a b c]) (simp_all add: that)
  qed
  have "sorted_wrt R (insert_by cmp x (js_sort cmp xs))"
  proof (rule sorted_insert_by)
    show "is_pos (cmp x y) = (\<not> R x y)" if "y \<in> set (js_sort cmp xs)" for y
      by (rule Cons.prems(1)) (use that in \<open>simp_all add: set_js_sort\<close>)
    show "R x y \<or> R y x" if "y \<in> set (js_sort cmp xs)" for y
      by (rule Cons.prems(2)) (use that in \<open>simp_all add: set_js_sort\<close>)
    show "R x z"
      if "y \<in> set (js_sort cmp xs)" "z \<in> set (js_sort cmp xs)" "R x y" "R y z" for y z
      by (rule Cons.prems(3) [of x y z]) (use that in \<open>simp_all add: set_js_sort\<close>)
    show "sorted_wrt R (js_sort cmp xs)" by (rule ih)
  qed
  then show ?case by (simp add: js_sort_Cons)
qed

lemma js_sort_stable:
  assumes pos: "\<And>x y. x \<in> set xs \<Longrightarrow> y \<in> set xs \<Longrightarrow> is_pos (cmp x y) = (\<not> R x y)"
    and same: "\<And>x y. x \<in> set xs \<Longrightarrow> y \<in> set xs \<Longrightarrow> P x \<Longrightarrow> P y \<Longrightarrow> R x y"
  shows "filter P (js_sort cmp xs) = filter P xs"
  using assms
proof (induction xs)
  case Nil
  then show ?case by (simp add: js_sort_def)
next
  case (Cons x xs)
  have ih: "filter P (js_sort cmp xs) = filter P xs"
  proof (rule Cons.IH)
    show "is_pos (cmp a b) = (\<not> R a b)" if "a \<in> set xs" "b \<in> set xs" for a b
      using that Cons.prems(1) [of a b] by simp
    show "R a b" if "a \<in> set xs" "b \<in> set xs" "P a" "P b" for a b
      using that Cons.prems(2) [of a b] by simp
  qed
  have "filter P (insert_by cmp x (js_sort cmp xs)) =
         (if P x then x # filter P (js_sort cmp xs) else filter P (js_sort cmp xs))"
  proof (rule filter_insert_by [where R = R])
    show "is_pos (cmp x y) = (\<not> R x y)" if "y \<in> set (js_sort cmp xs)" for y
      using that Cons.prems(1) [of x y] by (simp add: set_js_sort)
    show "R x y" if "y \<in> set (js_sort cmp xs)" "P x" "P y" for y
      using that Cons.prems(2) [of x y] by (simp add: set_js_sort)
  qed
  then show ?case
    unfolding js_sort_Cons using ih by simp
qed

lemma js_sort_id:
  assumes pos: "\<And>x y. x \<in> set xs \<Longrightarrow> y \<in> set xs \<Longrightarrow> is_pos (cmp x y) = (\<not> R x y)"
    and sorted: "sorted_wrt R xs"
  shows "js_sort cmp xs = xs"
  using assms
proof (induction xs)
  case Nil
  then show ?case by (simp add: js_sort_def)
next
  case (Cons x xs)
  have "js_sort cmp xs = xs"
  proof (rule Cons.IH)
    show "is_pos (cmp a b) = (\<not> R a b)" if "a \<in> set xs" "b \<in> set xs" for a b
      using that Cons.prems(1) [of a b] by simp
    show "sorted_wrt R xs" using Cons.prems(2) by simp
  qed
  moreover have "insert_by cmp x xs = x # xs"
  proof (rule insert_by_sorted [where R = R])
    show "is_pos (cmp x y) = (\<not> R x y)" if "y \<in> set xs" for y
      using that Cons.prems(1) [of x y] by simp
    show "sorted_wrt R (x # xs)" by (rule Cons.prems(2))
  qed
  ultimately show ?case by (simp add: js_sort_Cons)
qed

subsection \<open>The order of the numbers that are not NaN\<close>

lemma num_le_total: "a \<noteq> NaN \<Longrightarrow> b \<noteq> NaN \<Longrightarrow> num_le a b \<or> num_le b a"
  by (cases a; cases b) auto

lemma num_le_trans: "num_le a b \<Longrightarrow> num_le b c \<Longrightarrow> num_le a c"
  by (cases a; cases b; cases c) auto

lemma num_le_refl: "a \<noteq> NaN \<Longrightarrow> num_le a a"
  by (cases a) auto

lemma is_pos_num_sub: "a \<noteq> NaN \<Longrightarrow> b \<noteq> NaN \<Longrightarrow> is_pos (num_sub b a) = (\<not> num_le b a)"
  by (cases a; cases b) auto

subsection \<open>Numbers\<close>

lemma bitLength_le: "a < 2 ^ k \<Longrightarrow> bitLength a \<le> int k"
proof (induction k arbitrary: a)
  case 0
  then show ?case by (simp add: bitLength.simps)
next
  case (Suc k)
  show ?case
  proof (cases "a \<le> 0")
    case True
    then show ?thesis by (simp add: bitLength.simps)
  next
    case False
    have "a div 2 < 2 ^ k" using Suc.prems by simp
    then have "bitLength (a div 2) \<le> int k" by (rule Suc.IH)
    then show ?thesis using False by (subst bitLength.simps) simp
  qed
qed

lemma bitLength_one: "bitLength 1 = 1"
  by (simp add: bitLength.simps)

lemma floorLog2_one_le: "floorLog2 a 1 \<le> bitLength a - 1"
  by (simp add: floorLog2_def Let_def bitLength_one)

lemma roundHalfEven_one: "roundHalfEven a 1 = a"
  by (simp add: roundHalfEven_def)

lemma roundDouble_int:
  assumes "0 \<le> n" and "n < 2 ^ 53"
  shows "roundDouble n 1 = Num (of_int n)"
proof (cases "n = 0")
  case True
  then show ?thesis by (simp add: roundDouble_def)
next
  case False
  define p where "p = max (floorLog2 n 1 - 52) (- 1074)"
  have "bitLength n \<le> 53" using bitLength_le [OF assms(2)] by simp
  then have "floorLog2 n 1 \<le> 52" using floorLog2_one_le [of n] by linarith
  then have p: "p \<le> 0" by (simp add: p_def)
  show ?thesis
  proof (cases "p = 0")
    case True
    have "\<not> (2 :: int) ^ 1024 \<le> n"
    proof -
      have "(2 :: int) ^ 53 \<le> 2 ^ 1024" by (rule power_increasing) simp_all
      then show ?thesis using assms(2) by linarith
    qed
    then show ?thesis
      using False True unfolding roundDouble_def Let_def p_def [symmetric]
      by (simp add: roundHalfEven_one)
  next
    case F: False
    then have "\<not> 0 \<le> p" using p by simp
    then show ?thesis
      using False unfolding roundDouble_def Let_def p_def [symmetric]
      by (simp add: roundHalfEven_one)
  qed
qed

lemma isDigit_not_space: "isDigit c \<Longrightarrow> \<not> isWhiteSpace c"
  by (auto simp: isDigit_def isWhiteSpace_def code_def)

lemma isDigit_not_letter:
  "isDigit c \<Longrightarrow> c \<noteq> CHR ''-'' \<and> c \<noteq> CHR ''+'' \<and> c \<noteq> CHR ''I'' \<and> c \<noteq> CHR ''x'' \<and> c \<noteq> CHR ''X''
     \<and> c \<noteq> CHR ''o'' \<and> c \<noteq> CHR ''O'' \<and> c \<noteq> CHR ''b'' \<and> c \<noteq> CHR ''B''"
  by (auto simp: isDigit_def code_def)

lemma digitVal_le: "isDigit c \<Longrightarrow> digitVal c \<le> 9"
  by (auto simp: isDigit_def digitVal_def)

lemma decimalValue_snoc: "decimalValue (ds @ [c]) = 10 * decimalValue ds + digitVal c"
  by (simp add: decimalValue_def)

lemma digitsValue_snoc:
  "digitsValue r val (ds @ [c]) = r * digitsValue r val ds + int (val c)"
  by (simp add: digitsValue_def)

lemma digitsValue_Nil: "digitsValue r val [] = 0"
  by (simp add: digitsValue_def)

lemma digitsValue_decimal: "digitsValue 10 digitVal ds = int (decimalValue ds)"
proof (induction ds rule: rev_induct)
  case Nil
  then show ?case by (simp add: digitsValue_def decimalValue_def)
next
  case (snoc c ds)
  then show ?case by (simp add: digitsValue_snoc decimalValue_snoc)
qed

lemma decimalValue_less: "list_all isDigit ds \<Longrightarrow> decimalValue ds < 10 ^ length ds"
proof (induction ds rule: rev_induct)
  case Nil
  then show ?case by (simp add: decimalValue_def)
next
  case (snoc c ds)
  then have "decimalValue ds < 10 ^ length ds" and "digitVal c \<le> 9"
    by (simp_all add: digitVal_le)
  then have "10 * decimalValue ds + digitVal c < 10 * 10 ^ length ds" by linarith
  then show ?case by (simp add: decimalValue_snoc)
qed

lemma decimalValue_small:
  assumes "list_all isDigit ds" and "length ds \<le> 15"
  shows "int (decimalValue ds) < 2 ^ 53"
proof -
  have "decimalValue ds < 10 ^ length ds" using assms(1) by (rule decimalValue_less)
  also have "(10 :: nat) ^ length ds \<le> 10 ^ 15" using assms(2) by (rule power_increasing) simp
  finally have "decimalValue ds < 10 ^ 15" .
  then have "int (decimalValue ds) < int (10 ^ 15)" by (simp only: of_nat_less_iff)
  also have "int (10 ^ 15) < 2 ^ 53" by simp
  finally show ?thesis .
qed

lemma trim_id:
  assumes "s \<noteq> []" and "\<not> isWhiteSpace (hd s)" and "\<not> isWhiteSpace (last s)"
  shows "trim s = s"
proof -
  have 1: "dropWhile isWhiteSpace s = s"
    using assms by (simp add: dropWhile_eq_self_iff)
  have "hd (rev s) = last s"
    using assms by (simp add: hd_rev)
  then have 2: "dropWhile isWhiteSpace (rev s) = rev s"
    using assms by (simp add: dropWhile_eq_self_iff)
  show ?thesis by (simp add: trim_def 1 2)
qed

lemma digits_trim: "list_all isDigit ds \<Longrightarrow> trim ds = ds"
proof (cases "ds = []")
  case True
  then show ?thesis by (simp add: trim_def)
next
  case False
  assume "list_all isDigit ds"
  then have "isDigit (hd ds)" "isDigit (last ds)"
    using False by (auto simp: list_all_iff)
  then show ?thesis using False by (simp add: trim_id isDigit_not_space)
qed

lemma digits_nonDecimal:
  assumes "list_all isDigit ds"
  shows "nonDecimalLiteral ds = None"
proof (cases ds)
  case Nil
  then show ?thesis by (simp add: nonDecimalLiteral_def)
next
  case c: (Cons c cs)
  show ?thesis
  proof (cases cs)
    case Nil
    then show ?thesis using c by (simp add: nonDecimalLiteral_def)
  next
    case (Cons d rest)
    then have "isDigit d" using assms c by simp
    then have "d \<noteq> CHR ''x''" "d \<noteq> CHR ''X''" "d \<noteq> CHR ''o''" "d \<noteq> CHR ''O''"
      "d \<noteq> CHR ''b''" "d \<noteq> CHR ''B''"
      using isDigit_not_letter [of d] by simp_all
    then show ?thesis using c Cons by (simp add: nonDecimalLiteral_def)
  qed
qed

lemma digits_decimalLiteral:
  assumes "list_all isDigit ds" and "ds \<noteq> []"
  shows "decimalLiteral ds = Some (int (decimalValue ds), 1)"
proof -
  have t: "takeWhile isDigit ds = ds" using assms(1) by (simp add: list_all_iff)
  have d: "dropWhile isDigit ds = []" using assms(1) by (simp add: list_all_iff)
  show ?thesis
    using assms(2)
    by (simp add: decimalLiteral_def Let_def t d startsWith_def digitsValue_decimal digitsValue_Nil)
qed

lemma digits_toNumber:
  assumes "list_all isDigit ds" and "length ds \<le> 15"
  shows "toNumber ds = Num (of_nat (decimalValue ds))"
proof (cases ds)
  case Nil
  then show ?thesis by (simp add: toNumber_def trim_def decimalValue_def)
next
  case (Cons c cs)
  then have c: "isDigit c" using assms(1) by simp
  have s: "\<not> startsWith ds (CHR ''-'')" "\<not> startsWith ds (CHR ''+'')"
    using c Cons isDigit_not_letter by (auto simp: startsWith_def)
  have i: "ds \<noteq> ''Infinity''" using c Cons isDigit_not_letter by auto
  have r: "roundDouble (int (decimalValue ds)) 1 = Num (of_int (int (decimalValue ds)))"
    using decimalValue_small [OF assms(1) assms(2)] by (intro roundDouble_int) simp_all
  have ne: "ds \<noteq> []" using Cons by simp
  show ?thesis
    using s i ne
    by (simp add: toNumber_def Let_def digits_trim [OF assms(1)] digits_nonDecimal [OF assms(1)]
        digits_decimalLiteral [OF assms(1) ne] r)
qed

lemma digits_parseInt:
  assumes "list_all isDigit ds" and "ds \<noteq> []" and "length ds \<le> 15"
  shows "parseInt ds = Num (of_nat (decimalValue ds))"
proof -
  obtain c cs where ds: "ds = c # cs" using assms(2) by (cases ds) auto
  have c: "isDigit c" using assms(1) ds by simp
  have 0: "dropWhile isWhiteSpace ds = ds" using c ds isDigit_not_space by simp
  have 1: "\<not> startsWith ds (CHR ''-'')" "\<not> startsWith ds (CHR ''+'')"
    using c ds isDigit_not_letter by (auto simp: startsWith_def)
  have 2: "\<not> (case ds of a # b # _ \<Rightarrow> a = CHR ''0'' \<and> (b = CHR ''x'' \<or> b = CHR ''X'') | _ \<Rightarrow> False)"
    using assms(1) ds by (auto simp: isDigit_def code_def split: list.splits)
  have 3: "takeWhile isDigit ds = ds" using assms(1) by (simp add: list_all_iff)
  have r: "roundDouble (int (decimalValue ds)) 1 = Num (of_int (int (decimalValue ds)))"
    using decimalValue_small [OF assms(1) assms(3)] by (intro roundDouble_int) simp_all
  show ?thesis
    using 1 2 assms(2) by (simp add: parseInt_def Let_def 0 3 digitsValue_decimal r)
qed

lemma fourDigits_parseInt: "fourDigits y \<Longrightarrow> parseInt y = Num (of_nat (decimalValue y))"
  by (rule digits_parseInt) (auto simp: fourDigits_def)

lemma fourDigits_toNumber: "fourDigits y \<Longrightarrow> toNumber y = Num (of_nat (decimalValue y))"
  by (rule digits_toNumber) (simp_all add: fourDigits_def)

lemma getProp_nonempty: "getProp e name = Some v \<Longrightarrow> e \<noteq> []"
  by (auto simp: getProp_def)

lemma num_ge_nat: "num_ge (Num (of_nat n)) c = (c \<le> int n)"
proof -
  have "((of_int c :: rat) \<le> of_nat n) = ((of_int c :: rat) \<le> of_int (int n))" by simp
  also have "\<dots> = (c \<le> int n)" by (rule of_int_le_iff)
  finally show ?thesis by simp
qed

lemma num_gt_nat: "num_gt (Num (of_nat n)) c = (c < int n)"
proof -
  have "((of_int c :: rat) < of_nat n) = ((of_int c :: rat) < of_int (int n))" by simp
  also have "\<dots> = (c < int n)" by (rule of_int_less_iff)
  finally show ?thesis by simp
qed

lemma recent_v3_fourDigits:
  "getProp e ''year'' = Some y \<Longrightarrow> fourDigits y \<Longrightarrow>
   recent_v3 currentYear e = (int (decimalValue y) \<ge> currentYear - 3)"
  by (auto simp: recent_v3_def fourDigits_parseInt num_ge_nat fourDigits_def simp del: num_ge.simps)

lemma step_v2_header:
  assumes "startsWith (trim line) (CHR ''@'')" and "header_v1 (trim line) = Inr e'"
    and "getProp e ''year'' = Some y" and "fourDigits y"
  shows "step_v2 currentYear (entries, e) line =
           Inr (if int (decimalValue y) > currentYear - 3 then entries @ [e] else entries, e')"
  using assms getProp_nonempty [OF assms(3)]
  by (simp add: step_v2_def Let_def yearNum_v2_def fourDigits_toNumber num_gt_nat
      del: num_gt.simps)

subsection \<open>The steps of the parsers and the parts of the renderers\<close>

lemma getProp_assign: "name \<noteq> ''__proto__'' \<Longrightarrow> getProp (assign e name v) name = Some v"
  by (simp add: getProp_def assign_def update_conv')

lemma step_v1_header:
  assumes "startsWith (trim line) (CHR ''@'')" and "header_v1 (trim line) = Inr e'"
    and "e \<noteq> []"
  shows "step_v1 (entries, e) line = Inr (entries @ [e], e')"
  using assms by (simp add: step_v1_def Let_def)

lemma header_v3_no_brace:
  "CHR ''{'' \<notin> set h \<Longrightarrow> header_v3 h = [(''type'', trim h), (''key'', [])]"
  by (simp add: header_v3_def js_split_no_sep)

lemma renderHTML_v3_snd: "snd (renderHTML_v3 entries) = js_sort cmp_v3 entries"
  by (simp add: renderHTML_v3_def Let_def)

lemma renderHTML_v3_fst:
  "fst (renderHTML_v3 entries) = concat (map block_v3 (js_sort cmp_v3 entries))"
  by (simp add: renderHTML_v3_def Let_def)

lemma renderHTML_v2_snd: "snd (renderHTML_v2 entries) = js_sort cmp_v2 entries"
  by (simp add: renderHTML_v2_def Let_def)

lemma mapE_block_v2:
  "list_all (\<lambda>e. getProp e ''author'' \<noteq> None) xs \<Longrightarrow>
   mapE block_v2 xs = Inr (map (\<lambda>e. blockText_v2 e (or_empty (getProp e ''author''))) xs)"
  by (induction xs) (auto simp: block_v2_def)

lemma renderHTML_v2_fst:
  assumes "list_all (\<lambda>e. getProp e ''author'' \<noteq> None) entries"
  shows "fst (renderHTML_v2 entries) =
           Inr ([nl] @ ''        ''
                @ concat (map (\<lambda>e. blockText_v2 e (or_empty (getProp e ''author'')))
                            (snd (renderHTML_v2 entries)))
                @ [nl] @ ''  '')"
proof -
  have "list_all (\<lambda>e. getProp e ''author'' \<noteq> None) (js_sort cmp_v2 entries)"
    using assms by (simp add: list_all_iff set_js_sort)
  then show ?thesis
    by (simp add: renderHTML_v2_def Let_def mapE_block_v2)
qed

lemma sorted_v3:
  assumes "list_all (\<lambda>e. yearOrZero e \<noteq> NaN) entries"
  shows "sorted_wrt byYear_v3 (js_sort cmp_v3 entries)"
    and "filter (\<lambda>e. yearOrZero e = n) (js_sort cmp_v3 entries)
           = filter (\<lambda>e. yearOrZero e = n) entries"
    and "(js_sort cmp_v3 entries = entries) = sorted_wrt byYear_v3 entries"
proof -
  have nn: "yearOrZero e \<noteq> NaN" if "e \<in> set entries" for e
    using that assms by (simp add: list_all_iff)
  have pos: "is_pos (cmp_v3 a b) = (\<not> byYear_v3 a b)"
    if "a \<in> set entries" "b \<in> set entries" for a b
    using that by (simp add: cmp_v3_def byYear_v3_def is_pos_num_sub nn)
  show s: "sorted_wrt byYear_v3 (js_sort cmp_v3 entries)"
  proof (rule js_sort_sorted)
    show "is_pos (cmp_v3 a b) = (\<not> byYear_v3 a b)"
      if "a \<in> set entries" "b \<in> set entries" for a b using that by (rule pos)
    show "byYear_v3 a b \<or> byYear_v3 b a"
      if "a \<in> set entries" "b \<in> set entries" for a b
      using that num_le_total [of "yearOrZero a" "yearOrZero b"]
      by (auto simp: byYear_v3_def nn)
    show "byYear_v3 a c" if "byYear_v3 a b" "byYear_v3 b c" for a b c
      using that num_le_trans unfolding byYear_v3_def by blast
  qed
  show "filter (\<lambda>e. yearOrZero e = n) (js_sort cmp_v3 entries)
           = filter (\<lambda>e. yearOrZero e = n) entries"
  proof (rule js_sort_stable [where R = byYear_v3])
    show "is_pos (cmp_v3 a b) = (\<not> byYear_v3 a b)"
      if "a \<in> set entries" "b \<in> set entries" for a b using that by (rule pos)
    show "byYear_v3 a b"
      if "a \<in> set entries" "b \<in> set entries" "yearOrZero a = n" "yearOrZero b = n" for a b
      using that nn [of a] by (simp add: byYear_v3_def num_le_refl)
  qed
  show "(js_sort cmp_v3 entries = entries) = sorted_wrt byYear_v3 entries"
  proof
    assume "js_sort cmp_v3 entries = entries"
    then show "sorted_wrt byYear_v3 entries" using s by simp
  next
    assume "sorted_wrt byYear_v3 entries"
    then show "js_sort cmp_v3 entries = entries"
      using pos by (rule js_sort_id [rotated])
  qed
qed

lemma sorted_v2:
  assumes "list_all (\<lambda>e. yearNum_v2 e \<noteq> NaN) entries"
  shows "sorted_wrt byYear_v2 (js_sort cmp_v2 entries)"
    and "filter (\<lambda>e. yearNum_v2 e = n) (js_sort cmp_v2 entries)
           = filter (\<lambda>e. yearNum_v2 e = n) entries"
    and "(js_sort cmp_v2 entries = entries) = sorted_wrt byYear_v2 entries"
proof -
  have nn: "yearNum_v2 e \<noteq> NaN" if "e \<in> set entries" for e
    using that assms by (simp add: list_all_iff)
  have pos: "is_pos (cmp_v2 a b) = (\<not> byYear_v2 a b)"
    if "a \<in> set entries" "b \<in> set entries" for a b
    using that by (simp add: cmp_v2_def byYear_v2_def is_pos_num_sub nn)
  show s: "sorted_wrt byYear_v2 (js_sort cmp_v2 entries)"
  proof (rule js_sort_sorted)
    show "is_pos (cmp_v2 a b) = (\<not> byYear_v2 a b)"
      if "a \<in> set entries" "b \<in> set entries" for a b using that by (rule pos)
    show "byYear_v2 a b \<or> byYear_v2 b a"
      if "a \<in> set entries" "b \<in> set entries" for a b
      using that num_le_total [of "yearNum_v2 a" "yearNum_v2 b"]
      by (auto simp: byYear_v2_def nn)
    show "byYear_v2 a c" if "byYear_v2 a b" "byYear_v2 b c" for a b c
      using that num_le_trans unfolding byYear_v2_def by blast
  qed
  show "filter (\<lambda>e. yearNum_v2 e = n) (js_sort cmp_v2 entries)
           = filter (\<lambda>e. yearNum_v2 e = n) entries"
  proof (rule js_sort_stable [where R = byYear_v2])
    show "is_pos (cmp_v2 a b) = (\<not> byYear_v2 a b)"
      if "a \<in> set entries" "b \<in> set entries" for a b using that by (rule pos)
    show "byYear_v2 a b"
      if "a \<in> set entries" "b \<in> set entries" "yearNum_v2 a = n" "yearNum_v2 b = n" for a b
      using that nn [of a] by (simp add: byYear_v2_def num_le_refl)
  qed
  show "(js_sort cmp_v2 entries = entries) = sorted_wrt byYear_v2 entries"
  proof
    assume "js_sort cmp_v2 entries = entries"
    then show "sorted_wrt byYear_v2 entries" using s by simp
  next
    assume "sorted_wrt byYear_v2 entries"
    then show "js_sort cmp_v2 entries = entries"
      using pos by (rule js_sort_id [rotated])
  qed
qed

lemma fieldLine_v3_eq:
  assumes "str_includes (trim line) (CHR ''='')"
  shows "fieldLine_v3 e line =
           assign e (toLowerCase (trim (takeWhile (\<lambda>c. c \<noteq> CHR ''='') (trim line))))
             (fieldValue_v3 (hd (tl (js_split (CHR ''='') (trim line)))))"
proof -
  obtain k v rest where s: "js_split (CHR ''='') (trim line) = k # v # rest"
    using js_split_two assms unfolding str_includes_def by blast
  have "k = takeWhile (\<lambda>c. c \<noteq> CHR ''='') (trim line)"
    using js_split_hd [of "CHR ''=''" "trim line"] s by simp
  then show ?thesis using assms s by (simp add: fieldLine_v3_def Let_def)
qed

lemma fieldLine_v1_eq:
  assumes "str_includes line (CHR ''='')"
  shows "fieldLine_v1 e line =
           assign e (trim (takeWhile (\<lambda>c. c \<noteq> CHR ''='') line))
             (fieldValue_v1 (hd (tl (js_split (CHR ''='') line))))"
proof -
  obtain k v rest where s: "js_split (CHR ''='') line = k # v # rest"
    using js_split_two assms unfolding str_includes_def by blast
  have "k = takeWhile (\<lambda>c. c \<noteq> CHR ''='') line"
    using js_split_hd [of "CHR ''=''" line] s by simp
  then show ?thesis using s by (simp add: fieldLine_v1_def)
qed



subsection \<open>Decorated field lines\<close>




























section \<open>Properties\<close>

subsection \<open>The year filter\<close>

text \<open>
  Claim C1, as the code has it. Let an entry have a year of four decimal digits.
  Version 3 renders the blocks of the entries its parser returns, and an entry parsed from
  the text is among them exactly when its year is at least \<open>currentYear - 3\<close>; the window
  is the constant 3 and the filter stands in the parser. In version 2 an entry that a following header closes is kept exactly when its
  year is greater than \<open>currentYear - 3\<close>, and in version 1 it is always kept.
  (Nothing is said here of the entry that ends the text in version 2.)
\<close>

theorem year_filter:
  assumes "getProp e ''year'' = Some y" and "fourDigits y"
  shows
    "fst (renderHTML_v3 (parseBibtex_v3 currentYear bibtex))
       = concat (map block_v3 (snd (renderHTML_v3 (parseBibtex_v3 currentYear bibtex))))
     \<and> (e \<in> set (map parseEntry_v3 (tl (js_split (CHR ''@'') bibtex))) \<longrightarrow>
        (e \<in> set (snd (renderHTML_v3 (parseBibtex_v3 currentYear bibtex)))
           \<longleftrightarrow> int (decimalValue y) \<ge> currentYear - 3))
     \<and> (startsWith (trim line) (CHR ''@'') \<and> header_v1 (trim line) = Inr e' \<longrightarrow>
          step_v2 currentYear (entries, e) line =
            Inr (if int (decimalValue y) > currentYear - 3 then entries @ [e] else entries, e')
          \<and> step_v1 (entries, e) line = Inr (entries @ [e], e'))"
proof -
  have "e \<in> set (snd (renderHTML_v3 (parseBibtex_v3 currentYear bibtex)))
          \<longleftrightarrow> int (decimalValue y) \<ge> currentYear - 3"
    if "e \<in> set (map parseEntry_v3 (tl (js_split (CHR ''@'') bibtex)))"
    using that recent_v3_fourDigits [OF assms, of currentYear]
    by (auto simp: renderHTML_v3_snd set_js_sort parseBibtex_v3_def)
  moreover have "step_v2 currentYear (entries, e) line =
            Inr (if int (decimalValue y) > currentYear - 3 then entries @ [e] else entries, e')"
    if "startsWith (trim line) (CHR ''@'')" "header_v1 (trim line) = Inr e'"
    using step_v2_header [OF that assms] .
  moreover have "step_v1 (entries, e) line = Inr (entries @ [e], e')"
    if "startsWith (trim line) (CHR ''@'')" "header_v1 (trim line) = Inr e'"
    using step_v1_header [OF that getProp_nonempty [OF assms(1)]] .
  moreover have "fst (renderHTML_v3 (parseBibtex_v3 currentYear bibtex))
       = concat (map block_v3 (snd (renderHTML_v3 (parseBibtex_v3 currentYear bibtex))))"
    by (simp add: renderHTML_v3_fst renderHTML_v3_snd)
  ultimately show ?thesis by blast
qed

text \<open>
  The entry of 2021 in the year 2024: version 3 renders it, version 2 drops it at the next
  header, version 1 keeps it.
\<close>

theorem year_filter_witness:
  "entry2021 \<in> set (snd (renderHTML_v3 (parseBibtex_v3 2024 two_entries_text)))
   \<and> step_v2 2024 ([], entry2021) ''@article{b,''
       = Inr ([], [(''type'', ''article''), (''key'', ''b'')])
   \<and> step_v1 ([], entry2021) ''@article{b,''
       = Inr ([entry2021], [(''type'', ''article''), (''key'', ''b'')])"
proof -
  have h1: "getProp entry2021 ''year'' = Some ''2021''" by code_simp
  have h2: "fourDigits ''2021''" by code_simp
  have h3: "entry2021 \<in> set (map parseEntry_v3 (tl (js_split (CHR ''@'') two_entries_text)))"
    by code_simp
  have h4: "startsWith (trim ''@article{b,'') (CHR ''@'')" by code_simp
  have h5: "header_v1 (trim ''@article{b,'') = Inr [(''type'', ''article''), (''key'', ''b'')]"
    by code_simp
  have v: "int (decimalValue ''2021'') = 2021" by code_simp
  show ?thesis
    using year_filter [OF h1 h2, where bibtex = two_entries_text and currentYear = 2024
        and line = "''@article{b,''" and e' = "[(''type'', ''article''), (''key'', ''b'')]"
        and entries = "[]"] h3 h4 h5
    by (simp add: v)
qed

text \<open>
  Against C1 as stated: in the year 2024 the entry of 2021 has a year that is at least
  \<open>2024 - 3\<close>, and version 2 returns the entry of 2024 alone.
\<close>

theorem year_filter_counterexample:
  "parseBibtex_v2 2024 two_entries_text
     = Inr [[(''type'', ''article''), (''key'', ''b''), (''year'', ''2024'')]]
   \<and> toNumber ''2021'' = Num 2021 \<and> (2021 :: int) \<ge> 2024 - 3"
  by code_simp

subsection \<open>The order of the blocks\<close>

text \<open>
  Claim C2, as the code has it. Let no year convert to NaN (in version 3 a missing or empty
  year is 0). Version 3 renders the blocks of the entries in the order of the sorted array,
  which is a permutation of the input in descending order of the numeric year and keeps
  the input order among the entries of one year. In version 2, where a missing year is NaN,
  the array is ordered in the same way, and when every entry has an author the fragment is
  the template around the blocks of the entries in that order. Version 1 renders the blocks
  in the order of the input.
\<close>

theorem sorted_by_year:
  assumes "list_all (\<lambda>e. yearOrZero e \<noteq> NaN) entries"
  shows
    "fst (renderHTML_v3 entries) = concat (map block_v3 (snd (renderHTML_v3 entries)))
     \<and> mset (snd (renderHTML_v3 entries)) = mset entries
     \<and> sorted_wrt byYear_v3 (snd (renderHTML_v3 entries))
     \<and> (\<forall>n. filter (\<lambda>e. yearOrZero e = n) (snd (renderHTML_v3 entries))
              = filter (\<lambda>e. yearOrZero e = n) entries)
     \<and> (list_all (\<lambda>e. yearNum_v2 e \<noteq> NaN) entries \<longrightarrow>
          mset (snd (renderHTML_v2 entries)) = mset entries
          \<and> sorted_wrt byYear_v2 (snd (renderHTML_v2 entries))
          \<and> (\<forall>n. filter (\<lambda>e. yearNum_v2 e = n) (snd (renderHTML_v2 entries))
                   = filter (\<lambda>e. yearNum_v2 e = n) entries)
          \<and> (list_all (\<lambda>e. getProp e ''author'' \<noteq> None) entries \<longrightarrow>
               fst (renderHTML_v2 entries) =
                 Inr ([nl] @ ''        ''
                      @ concat (map (\<lambda>e. blockText_v2 e (or_empty (getProp e ''author'')))
                                  (snd (renderHTML_v2 entries)))
                      @ [nl] @ ''  '')))
     \<and> renderHTML_v1 entries = wrap_v1 (concat (map block_v1 entries))"
proof -
  have 1: "fst (renderHTML_v3 entries) = concat (map block_v3 (snd (renderHTML_v3 entries)))"
    by (simp add: renderHTML_v3_fst renderHTML_v3_snd)
  have 2: "mset (snd (renderHTML_v3 entries)) = mset entries"
    by (simp add: renderHTML_v3_snd mset_js_sort)
  have 3: "sorted_wrt byYear_v3 (snd (renderHTML_v3 entries))"
    unfolding renderHTML_v3_snd using assms by (rule sorted_v3(1))
  have 4: "filter (\<lambda>e. yearOrZero e = n) (snd (renderHTML_v3 entries))
              = filter (\<lambda>e. yearOrZero e = n) entries" for n
    unfolding renderHTML_v3_snd using assms by (rule sorted_v3(2))
  have 5: "mset (snd (renderHTML_v2 entries)) = mset entries"
    by (simp add: renderHTML_v2_snd mset_js_sort)
  have 6: "sorted_wrt byYear_v2 (snd (renderHTML_v2 entries))"
    if "list_all (\<lambda>e. yearNum_v2 e \<noteq> NaN) entries"
    unfolding renderHTML_v2_snd using that by (rule sorted_v2(1))
  have 7: "filter (\<lambda>e. yearNum_v2 e = n) (snd (renderHTML_v2 entries))
              = filter (\<lambda>e. yearNum_v2 e = n) entries"
    if "list_all (\<lambda>e. yearNum_v2 e \<noteq> NaN) entries" for n
    unfolding renderHTML_v2_snd using that by (rule sorted_v2(2))
  have 8: "fst (renderHTML_v2 entries) =
             Inr ([nl] @ ''        ''
                  @ concat (map (\<lambda>e. blockText_v2 e (or_empty (getProp e ''author'')))
                              (snd (renderHTML_v2 entries)))
                  @ [nl] @ ''  '')"
    if "list_all (\<lambda>e. getProp e ''author'' \<noteq> None) entries"
    using that by (rule renderHTML_v2_fst)
  have 9: "renderHTML_v1 entries = wrap_v1 (concat (map block_v1 entries))"
    by (simp add: renderHTML_v1_def)
  show ?thesis using 1 2 3 4 5 6 7 8 9 by blast
qed

text \<open>
  The entries of 2022 and 2024, in this order: versions 3 and 2 put the entry of 2024 first,
  in the array and in the fragment.
\<close>

theorem sorted_by_year_witness:
  "snd (renderHTML_v3 [entry2022, entry2024]) = [entry2024, entry2022]
   \<and> fst (renderHTML_v3 [entry2022, entry2024]) = block_v3 entry2024 @ block_v3 entry2022
   \<and> snd (renderHTML_v2 [entry2022, entry2024]) = [entry2024, entry2022]
   \<and> fst (renderHTML_v2 [entry2022, entry2024]) =
       Inr ([nl] @ ''        ''
         @ [nl] @ ''      <div class='' @ [dq] @ ''entry'' @ [dq] @ ''>'' @ [nl]
         @ ''        <p>'' @ [nl]
         @ ''        B,'' @ [nl]
         @ ''        <i>'' @ [dq] @ ''New'' @ [dq] @ ''</i>'' @ [nl]
         @ ''        undefined, 2024'' @ [nl]
         @ ''        '' @ [nl]
         @ ''        </p>'' @ [nl]
         @ ''      </div>'' @ [nl]
         @ ''    ''
         @ [nl] @ ''      <div class='' @ [dq] @ ''entry'' @ [dq] @ ''>'' @ [nl]
         @ ''        <p>'' @ [nl]
         @ ''        A,'' @ [nl]
         @ ''        <i>'' @ [dq] @ ''Old'' @ [dq] @ ''</i>'' @ [nl]
         @ ''        undefined, 2022'' @ [nl]
         @ ''        '' @ [nl]
         @ ''        </p>'' @ [nl]
         @ ''      </div>'' @ [nl]
         @ ''    ''
         @ [nl] @ ''  '')"
proof -
  have h: "list_all (\<lambda>e. yearOrZero e \<noteq> NaN) [entry2022, entry2024]" by code_simp
  have g: "list_all (\<lambda>e. yearNum_v2 e \<noteq> NaN) [entry2022, entry2024]" by code_simp
  have a: "list_all (\<lambda>e. getProp e ''author'' \<noteq> None) [entry2022, entry2024]" by code_simp
  have s3: "snd (renderHTML_v3 [entry2022, entry2024]) = [entry2024, entry2022]" by code_simp
  have s2: "snd (renderHTML_v2 [entry2022, entry2024]) = [entry2024, entry2022]" by code_simp
  have b: "concat (map (\<lambda>e. blockText_v2 e (or_empty (getProp e ''author'')))
                    [entry2024, entry2022]) =
         [nl] @ ''      <div class='' @ [dq] @ ''entry'' @ [dq] @ ''>'' @ [nl]
         @ ''        <p>'' @ [nl]
         @ ''        B,'' @ [nl]
         @ ''        <i>'' @ [dq] @ ''New'' @ [dq] @ ''</i>'' @ [nl]
         @ ''        undefined, 2024'' @ [nl]
         @ ''        '' @ [nl]
         @ ''        </p>'' @ [nl]
         @ ''      </div>'' @ [nl]
         @ ''    ''
         @ [nl] @ ''      <div class='' @ [dq] @ ''entry'' @ [dq] @ ''>'' @ [nl]
         @ ''        <p>'' @ [nl]
         @ ''        A,'' @ [nl]
         @ ''        <i>'' @ [dq] @ ''Old'' @ [dq] @ ''</i>'' @ [nl]
         @ ''        undefined, 2022'' @ [nl]
         @ ''        '' @ [nl]
         @ ''        </p>'' @ [nl]
         @ ''      </div>'' @ [nl]
         @ ''    ''"
    by code_simp
  show ?thesis
    using sorted_by_year [OF h] g a unfolding s3 s2 b by simp
qed

text \<open>
  Against C2 as stated: version 1 renders the entry of 2022 before the entry of 2024.
\<close>

theorem sorted_by_year_counterexample:
  "renderHTML_v1 [entry2022, entry2024] =
     wrap_v1 ([nl] @ ''      <div class='' @ [dq] @ ''entry'' @ [dq] @ ''>'' @ [nl]
       @ ''        <p>'' @ [nl]
       @ ''        A,'' @ [nl]
       @ ''        <i>'' @ [dq] @ ''Old'' @ [dq] @ ''</i>'' @ [nl]
       @ ''        undefined, 2022'' @ [nl]
       @ ''        </p>'' @ [nl]
       @ ''      </div>'' @ [nl]
       @ ''    '' @ [nl] @ ''      <div class='' @ [dq] @ ''entry'' @ [dq] @ ''>'' @ [nl]
       @ ''        <p>'' @ [nl]
       @ ''        B,'' @ [nl]
       @ ''        <i>'' @ [dq] @ ''New'' @ [dq] @ ''</i>'' @ [nl]
       @ ''        undefined, 2024'' @ [nl]
       @ ''        </p>'' @ [nl]
       @ ''      </div>'' @ [nl]
       @ ''    '')"
  by code_simp

subsection \<open>Exceptions\<close>

text \<open>
  Claim C3 at inputs where the code throws. In versions 1 and 2 the text \<^verbatim>\<open>@article\<close>, a
  header with no \<^verbatim>\<open>{\<close>, makes \<^verbatim>\<open>parseBibtex\<close> throw a TypeError at \<^verbatim>\<open>key.trim()\<close>. Version 2
  parses an entry with no author and its \<^verbatim>\<open>renderHTML\<close> then throws a TypeError at
  \<^verbatim>\<open>entry.author.replace\<close>. Version 3 guards both places: its parser and its renderer have no
  exception at all, and on \<^verbatim>\<open>@article\<close> the parser returns no entry.
\<close>

theorem parser_and_renderer_throw:
  "parseBibtex_v1 ''@article'' = Inl TypeError
   \<and> parseBibtex_v2 2024 ''@article'' = Inl TypeError
   \<and> parseBibtex_v2 2024 no_author_text
       = Inr [[(''type'', ''misc''), (''key'', ''k''), (''title'', ''T'')]]
   \<and> fst (renderHTML_v2 [[(''type'', ''misc''), (''key'', ''k''), (''title'', ''T'')]])
       = Inl TypeError
   \<and> parseBibtex_v3 2024 ''@article'' = []"
  by code_simp

text \<open>
  Claim C4 at an input where the code throws. The first header of the text has no \<^verbatim>\<open>{\<close>
  and a well-formed entry follows. Versions 1 and 2 throw a TypeError at the first header
  and return no entry; version 3 gives the first record the empty key and goes on to the
  second segment.
\<close>

theorem header_without_brace:
  "parseBibtex_v1 no_brace_text = Inl TypeError
   \<and> parseBibtex_v2 2024 no_brace_text = Inl TypeError
   \<and> parseBibtex_v3 2024 no_brace_text =
       [[(''type'', ''misc''), (''key'', []), (''year'', ''2024'')],
        [(''type'', ''article''), (''key'', ''k''), (''year'', ''2024'')]]"
  by code_simp

subsection \<open>Field values and field names\<close>




text \<open>
  Claim C8, as the code has it. For a line whose trimmed text includes \<^verbatim>\<open>=\<close>: version 3
  assigns to the property named by the text left of the first \<^verbatim>\<open>=\<close>, trimmed and
  lower-cased, and the property is then read under that name unless the name is
  \<^verbatim>\<open>__proto__\<close>; versions 1 and 2 assign to the property named by that text trimmed, in the
  case it is written in.
\<close>

theorem field_name:
  assumes "str_includes (trim line) (CHR ''='')"
  shows
    "fieldLine_v3 e line =
       assign e (toLowerCase (trim (takeWhile (\<lambda>c. c \<noteq> CHR ''='') (trim line))))
         (fieldValue_v3 (hd (tl (js_split (CHR ''='') (trim line)))))
     \<and> (toLowerCase (trim (takeWhile (\<lambda>c. c \<noteq> CHR ''='') (trim line))) \<noteq> ''__proto__'' \<longrightarrow>
          getProp (fieldLine_v3 e line)
            (toLowerCase (trim (takeWhile (\<lambda>c. c \<noteq> CHR ''='') (trim line))))
          = Some (fieldValue_v3 (hd (tl (js_split (CHR ''='') (trim line))))))
     \<and> fieldLine_v1 e (trim line) =
         assign e (trim (takeWhile (\<lambda>c. c \<noteq> CHR ''='') (trim line)))
           (fieldValue_v1 (hd (tl (js_split (CHR ''='') (trim line)))))
     \<and> (trim (takeWhile (\<lambda>c. c \<noteq> CHR ''='') (trim line)) \<noteq> ''__proto__'' \<longrightarrow>
          getProp (fieldLine_v1 e (trim line))
            (trim (takeWhile (\<lambda>c. c \<noteq> CHR ''='') (trim line)))
          = Some (fieldValue_v1 (hd (tl (js_split (CHR ''='') (trim line))))))"
  using fieldLine_v3_eq [OF assms, of e] fieldLine_v1_eq [OF assms, of e]
  by (simp add: getProp_assign)

text \<open>The line \<^verbatim>\<open>Title = {A Study},\<close> in an entry with no property yet.\<close>

theorem field_name_witness:
  "fieldLine_v3 [] ''  Title = {A Study},'' = [(''title'', ''A Study'')]
   \<and> getProp (fieldLine_v3 [] ''  Title = {A Study},'') ''title'' = Some ''A Study''
   \<and> fieldLine_v1 [] ''Title = {A Study},'' = [(''Title'', ''A Study'')]
   \<and> getProp (fieldLine_v1 [] ''Title = {A Study},'') ''Title'' = Some ''A Study''"
proof -
  have h: "str_includes (trim ''  Title = {A Study},'') (CHR ''='')" by code_simp
  have t: "trim ''  Title = {A Study},'' = ''Title = {A Study},''" by code_simp
  have n1: "trim (takeWhile (\<lambda>c. c \<noteq> CHR ''='') ''Title = {A Study},'') = ''Title''"
    by code_simp
  have n: "toLowerCase ''Title'' = ''title''" by code_simp
  have g: "getProp [(''Title'', ''A Study'')] ''Title'' = Some ''A Study''"
    "getProp [(''title'', ''A Study'')] ''title'' = Some ''A Study''" by code_simp+
  have v: "fieldValue_v3 (hd (tl (js_split (CHR ''='') ''Title = {A Study},''))) = ''A Study''"
    by code_simp
  have v1: "fieldValue_v1 (hd (tl (js_split (CHR ''='') ''Title = {A Study},''))) = ''A Study''"
    by code_simp
  have a: "assign [] ''title'' ''A Study'' = [(''title'', ''A Study'')]" by code_simp
  have a1: "assign [] ''Title'' ''A Study'' = [(''Title'', ''A Study'')]" by code_simp
  show ?thesis
    using field_name [OF h, of "[]"] unfolding t n1 n v v1 a a1 by (simp add: g)
qed

text \<open>
  Against C8 as stated: versions 1 and 2 store the field written \<^verbatim>\<open>Title\<close> under \<^verbatim>\<open>Title\<close>,
  and the entry has no property \<^verbatim>\<open>title\<close>.
\<close>

theorem field_name_counterexample:
  "parseBibtex_v1 capital_field_text
     = Inr [[(''type'', ''article''), (''key'', ''doe2023''), (''Title'', ''A Study'')]]
   \<and> getProp [(''type'', ''article''), (''key'', ''doe2023''), (''Title'', ''A Study'')] ''title''
       = None
   \<and> parseBibtex_v2 2024 capital_field_text
       = Inr [[(''type'', ''article''), (''key'', ''doe2023''), (''Title'', ''A Study'')]]"
  by code_simp

subsection \<open>The fragment\<close>

text \<open>
  Claim C6, as the code has it. On the empty array version 3 returns the empty string,
  version 2 returns its template around nothing (a line break, eight spaces, a line break,
  two spaces), and version 1 returns its document around an empty body.
\<close>

theorem render_empty:
  "fst (renderHTML_v3 []) = []
   \<and> fst (renderHTML_v2 []) = Inr ([nl] @ ''        '' @ [nl] @ ''  '')
   \<and> renderHTML_v1 [] =
        [nl] @ ''    <html>'' @ [nl]
        @ ''      <head>'' @ [nl]
        @ ''        <title>BibTeX Entries</title>'' @ [nl]
        @ ''      </head>'' @ [nl]
        @ ''      <body>'' @ [nl]
        @ ''        '' @ [nl]
        @ ''      </body>'' @ [nl]
        @ ''    </html>'' @ [nl]
        @ ''  ''"
  by code_simp

text \<open>Against C6 as stated: versions 1 and 2 do not return the empty string.\<close>

theorem render_empty_counterexample:
  "renderHTML_v1 [] \<noteq> [] \<and> fst (renderHTML_v2 []) \<noteq> Inr []"
  by code_simp

text \<open>
  Claim C7, as the code has it. For the example entry written with one field on each line,
  in the year 2024: the fragment of version 3 has the authors \<^verbatim>\<open>Doe, J., Roe, K.\<close>, the title
  A Study in italics, \<^verbatim>\<open>Journal X, 2023\<close> and the link to \<^verbatim>\<open>https://doi.org/10.1/xyz\<close>;
  version 2 has lost the commas inside the values and prints the authors \<^verbatim>\<open>Doe J., Roe K.\<close>;
  version 1 prints \<^verbatim>\<open>Doe J. and Roe K.\<close> and no link.
\<close>

theorem render_example:
  "fst (renderHTML_v3 (parseBibtex_v3 2024 example_lines)) =
     [nl] @ ''      <div class='' @ [dq] @ ''entry mb-2'' @ [dq] @ ''>'' @ [nl]
     @ ''        <p>'' @ [nl]
     @ ''          '' @ ''Doe, J., Roe, K.'' @ '', ''
     @ ''<i>'' @ [dq] @ ''A Study'' @ [dq] @ ''</i>'' @ ''. ''
     @ ''Journal X, 2023'' @ ''. ''
     @ ''<a href='' @ [dq] @ ''https://doi.org/10.1/xyz'' @ [dq]
     @ '' target='' @ [dq] @ ''_blank'' @ [dq] @ ''>10.1/xyz</a>'' @ [nl]
     @ ''        </p>'' @ [nl]
     @ ''      </div>'' @ [nl]
     @ ''    ''
   \<and> map_sum id (\<lambda>es. fst (renderHTML_v2 es)) (parseBibtex_v2 2024 example_lines) =
     Inr (Inr ([nl] @ ''        ''
     @ [nl] @ ''      <div class='' @ [dq] @ ''entry'' @ [dq] @ ''>'' @ [nl]
     @ ''        <p>'' @ [nl]
     @ ''        '' @ ''Doe J., Roe K.'' @ '','' @ [nl]
     @ ''        <i>'' @ [dq] @ ''A Study'' @ [dq] @ ''</i>'' @ [nl]
     @ ''        '' @ ''Journal X, 2023'' @ [nl]
     @ ''        '' @ ''<a href='' @ [dq] @ ''https://doi.org/10.1/xyz'' @ [dq] @ ''>10.1/xyz</a>'' @ [nl]
     @ ''        </p>'' @ [nl]
     @ ''      </div>'' @ [nl]
     @ ''    '' @ [nl] @ ''  ''))
   \<and> map_sum id renderHTML_v1 (parseBibtex_v1 example_lines) =
     Inr (wrap_v1 ([nl] @ ''      <div class='' @ [dq] @ ''entry'' @ [dq] @ ''>'' @ [nl]
     @ ''        <p>'' @ [nl]
     @ ''        '' @ ''Doe J. and Roe K.'' @ '','' @ [nl]
     @ ''        <i>'' @ [dq] @ ''A Study'' @ [dq] @ ''</i>'' @ [nl]
     @ ''        '' @ ''Journal X, 2023'' @ [nl]
     @ ''        </p>'' @ [nl]
     @ ''      </div>'' @ [nl]
     @ ''    ''))"
  by code_simp

text \<open>
  Against C7 as stated: for the entry on a single line, as the claim prints it, version 3
  reads the whole line as the header (the key is \<^verbatim>\<open>doe2023 author =\<close>), finds no year, and
  renders the empty string.
\<close>

theorem render_example_counterexample:
  "parseBibtex_v3 2024 example_inline = []
   \<and> fst (renderHTML_v3 (parseBibtex_v3 2024 example_inline)) = []
   \<and> map parseEntry_v3 (tl (js_split (CHR ''@'') example_inline))
       = [[(''type'', ''article''), (''key'', ''doe2023 author ='')]]"
  by code_simp

subsection \<open>Effects\<close>

text \<open>
  Claim C9, as the code has it. In versions 2 and 3 \<^verbatim>\<open>renderHTML\<close> sorts the array of the
  caller: the array keeps its length and its elements, and when no year converts to NaN it
  is left in descending order of the year, which is the order it had exactly when it was
  in that order before.
\<close>

theorem sorts_in_place:
  "mset (snd (renderHTML_v3 entries)) = mset entries
   \<and> length (snd (renderHTML_v3 entries)) = length entries
   \<and> (list_all (\<lambda>e. yearOrZero e \<noteq> NaN) entries \<longrightarrow>
        sorted_wrt byYear_v3 (snd (renderHTML_v3 entries))
        \<and> (snd (renderHTML_v3 entries) = entries) = sorted_wrt byYear_v3 entries)
   \<and> mset (snd (renderHTML_v2 entries)) = mset entries
   \<and> length (snd (renderHTML_v2 entries)) = length entries
   \<and> (list_all (\<lambda>e. yearNum_v2 e \<noteq> NaN) entries \<longrightarrow>
        sorted_wrt byYear_v2 (snd (renderHTML_v2 entries))
        \<and> (snd (renderHTML_v2 entries) = entries) = sorted_wrt byYear_v2 entries)"
proof -
  have 1: "sorted_wrt byYear_v3 (snd (renderHTML_v3 entries))
        \<and> (snd (renderHTML_v3 entries) = entries) = sorted_wrt byYear_v3 entries"
    if "list_all (\<lambda>e. yearOrZero e \<noteq> NaN) entries"
    unfolding renderHTML_v3_snd using sorted_v3(1) [OF that] sorted_v3(3) [OF that] by simp
  have 2: "sorted_wrt byYear_v2 (snd (renderHTML_v2 entries))
        \<and> (snd (renderHTML_v2 entries) = entries) = sorted_wrt byYear_v2 entries"
    if "list_all (\<lambda>e. yearNum_v2 e \<noteq> NaN) entries"
    unfolding renderHTML_v2_snd using sorted_v2(1) [OF that] sorted_v2(3) [OF that] by simp
  show ?thesis
    using 1 2 by (simp add: renderHTML_v3_snd renderHTML_v2_snd mset_js_sort length_js_sort)
qed

text \<open>
  The entries of 2022 and 2024 are not in descending order, and the array is changed; the
  entries of 2024 and 2022 are, and the array is left as it was.
\<close>

theorem sorts_in_place_witness:
  "\<not> sorted_wrt byYear_v3 [entry2022, entry2024]
   \<and> snd (renderHTML_v3 [entry2022, entry2024]) \<noteq> [entry2022, entry2024]
   \<and> snd (renderHTML_v3 [entry2024, entry2022]) = [entry2024, entry2022]
   \<and> snd (renderHTML_v2 [entry2022, entry2024]) \<noteq> [entry2022, entry2024]
   \<and> snd (renderHTML_v2 [entry2024, entry2022]) = [entry2024, entry2022]"
proof -
  have h: "list_all (\<lambda>e. yearOrZero e \<noteq> NaN) [entry2022, entry2024]"
    "list_all (\<lambda>e. yearOrZero e \<noteq> NaN) [entry2024, entry2022]"
    "list_all (\<lambda>e. yearNum_v2 e \<noteq> NaN) [entry2022, entry2024]"
    "list_all (\<lambda>e. yearNum_v2 e \<noteq> NaN) [entry2024, entry2022]"
    by code_simp+
  have s: "\<not> sorted_wrt byYear_v3 [entry2022, entry2024]"
    "sorted_wrt byYear_v3 [entry2024, entry2022]"
    "\<not> sorted_wrt byYear_v2 [entry2022, entry2024]"
    "sorted_wrt byYear_v2 [entry2024, entry2022]"
    by code_simp+
  show ?thesis
    using sorts_in_place [of "[entry2022, entry2024]"] sorts_in_place [of "[entry2024, entry2022]"]
      h s by blast
qed

text \<open>
  Against C9 as stated: after version 3 has rendered the entries of 2022 and 2024, the
  array of the caller holds the entry of 2024 first.
\<close>

theorem sorts_in_place_counterexample:
  "snd (renderHTML_v3 [entry2022, entry2024]) = [entry2024, entry2022]
   \<and> [entry2024, entry2022] \<noteq> [entry2022, entry2024]"
  by code_simp

text \<open>
  Claim C10. The entries that \<^verbatim>\<open>parseBibtex\<close> returns depend on the year of the system
  clock: version 3 returns both entries of the text in 2024 and the entry of 2024 alone in
  2025; version 2 returns both in 2023 and the entry of 2024 alone in 2024.
\<close>

theorem depends_on_clock:
  "parseBibtex_v3 2024 two_entries_text =
     [[(''type'', ''article''), (''key'', ''a''), (''year'', ''2021'')],
      [(''type'', ''article''), (''key'', ''b''), (''year'', ''2024'')]]
   \<and> parseBibtex_v3 2025 two_entries_text
       = [[(''type'', ''article''), (''key'', ''b''), (''year'', ''2024'')]]
   \<and> parseBibtex_v2 2023 two_entries_text =
     Inr [[(''type'', ''article''), (''key'', ''a''), (''year'', ''2021'')],
          [(''type'', ''article''), (''key'', ''b''), (''year'', ''2024'')]]
   \<and> parseBibtex_v2 2024 two_entries_text
       = Inr [[(''type'', ''article''), (''key'', ''b''), (''year'', ''2024'')]]"
  by code_simp

end
